theory Spec2Isabelle
  imports Main "HOL-Library.Word"
begin

unbundle bit_operations_syntax

section \<open>Memory-mapped registers\<close>

text \<open>
  The program (\<^verbatim>\<open>src/main.c\<close>) talks to an STM8S105 through ten byte-wide memory-mapped
  registers. The register file is the whole state of the program: a record with one
  field per \<^verbatim>\<open>#define\<close> of lines 68--77, under the name the source gives it.
\<close>

type_synonym u8 = "8 word"
type_synonym u16 = "16 word"

record hw =
  CLK_CKDIVR :: u8
  TIM1_CNTRH :: u8
  TIM1_CNTRL :: u8
  TIM1_PSCRH :: u8
  TIM1_PSCRL :: u8
  TIM1_CR1 :: u8
  PB_ODR :: u8
  PB_IDR :: u8
  PB_DDR :: u8
  PB_CR1 :: u8

text \<open>The four constants of lines 79--82, each a \<^verbatim>\<open>const unsigned short\<close>.\<close>

definition TICK_PIN :: u16 where
  "TICK_PIN = 0x01"

definition FREQ_SELECT_PIN :: u16 where
  "FREQ_SELECT_PIN = 0x02"

definition TICKS_50HZ :: u16 where
  "TICKS_50HZ = 40000"

definition TICKS_60HZ :: u16 where
  "TICKS_60HZ = 33333"

section \<open>Reading and resetting the timer\<close>

text \<open>
  \<^verbatim>\<open>clock()\<close> (lines 85--89) reads the high byte, then the low byte, and returns
  \<^verbatim>\<open>(unsigned short)(h) << 8 | l\<close>.
\<close>

definition clock :: "hw \<Rightarrow> u16" where
  "clock s = (let h = TIM1_CNTRH s; l = TIM1_CNTRL s in push_bit 8 (ucast h) OR ucast l)"

text \<open>\<^verbatim>\<open>reset_clock()\<close> (lines 91--98) stores \<^verbatim>\<open>0xff\<close> in both counter bytes.\<close>

definition reset_clock :: "hw \<Rightarrow> hw" where
  "reset_clock s = (s\<lparr>TIM1_CNTRH := 0xff\<rparr>)\<lparr>TIM1_CNTRL := 0xff\<rparr>"

section \<open>Driving the tick pin\<close>

text \<open>
  \<^verbatim>\<open>PB_ODR |= TICK_PIN\<close> (line 137) and \<^verbatim>\<open>PB_ODR &= ~TICK_PIN\<close> (lines 123 and 139):
  the register byte is promoted to the width of \<^verbatim>\<open>TICK_PIN\<close>, combined with it, and the
  result is truncated to a byte when it is stored.
\<close>

definition drive_high :: "hw \<Rightarrow> hw" where
  "drive_high s = s\<lparr>PB_ODR := ucast ((ucast (PB_ODR s) :: u16) OR TICK_PIN)\<rparr>"

definition drive_low :: "hw \<Rightarrow> hw" where
  "drive_low s = s\<lparr>PB_ODR := ucast ((ucast (PB_ODR s) :: u16) AND NOT TICK_PIN)\<rparr>"

text \<open>The level the program last wrote for the tick pin: the pin's bit of \<^verbatim>\<open>PB_ODR\<close>.\<close>

definition output_high :: "hw \<Rightarrow> bool" where
  "output_high s = ((ucast (PB_ODR s) :: u16) AND TICK_PIN \<noteq> 0)"

section \<open>Startup\<close>

text \<open>
  Lines 102--120 of \<^verbatim>\<open>main\<close>: the clock divider, the timer prescaler and enable bit, and
  the direction and configuration registers of port B, each a plain store.
\<close>

definition configure :: "hw \<Rightarrow> hw" where
  "configure s =
     s\<lparr>CLK_CKDIVR := 0x00,
       TIM1_PSCRH := 0x00,
       TIM1_PSCRL := 0x08 - 1,
       TIM1_CR1 := 0x01,
       PB_DDR := ucast (TICK_PIN OR FREQ_SELECT_PIN),
       PB_CR1 := ucast (TICK_PIN OR FREQ_SELECT_PIN)\<rparr>"

text \<open>Line 123 follows the configuration: ``always start tick low''.\<close>

definition startup :: "hw \<Rightarrow> hw" where
  "startup s = drive_low (configure s)"

section \<open>The control loop\<close>

text \<open>Line 127: the period for this iteration, from the frequency-select bit of \<^verbatim>\<open>PB_IDR\<close>.\<close>

definition select_ticks :: "hw \<Rightarrow> u16" where
  "select_ticks s =
     (if (ucast (PB_IDR s) :: u16) AND FREQ_SELECT_PIN \<noteq> 0 then TICKS_60HZ else TICKS_50HZ)"

text \<open>
  Lines 130--134: \<^verbatim>\<open>ck\<close> starts as the sampled value \<^verbatim>\<open>ck0\<close>; past the period the
  timer is reset and \<^verbatim>\<open>ck\<close> becomes 0. The result is the register file and \<^verbatim>\<open>ck\<close>.
  (\<^verbatim>\<open>unsigned int\<close> is 16 bits wide for sdcc on the STM8, and \<^verbatim>\<open>ck\<close> never holds more
  than a 16-bit value.)
\<close>

definition reset_on_overshoot :: "u16 \<Rightarrow> u16 \<Rightarrow> hw \<Rightarrow> hw \<times> u16" where
  "reset_on_overshoot ticks ck0 s = (if ck0 > ticks then (reset_clock s, 0) else (s, ck0))"

text \<open>Lines 136--140: high past the midpoint \<^verbatim>\<open>ticks/2\<close>, low otherwise.\<close>

definition duty_cycle :: "u16 \<Rightarrow> u16 \<Rightarrow> hw \<Rightarrow> hw" where
  "duty_cycle ticks ck s = (if ck > ticks div 2 then drive_high s else drive_low s)"

text \<open>One pass through the body of \<^verbatim>\<open>while (1)\<close> (lines 127--140).\<close>

definition loop_body :: "hw \<Rightarrow> hw" where
  "loop_body s =
     (let ticks = select_ticks s;
          ck0 = clock s;
          (s', ck) = reset_on_overshoot ticks ck0 s
      in duty_cycle ticks ck s')"

text \<open>
  The timer counts on its own and the select pin is wired to the outside, so what the
  volatile reads of one iteration return is an input of that iteration: the byte read
  from \<^verbatim>\<open>PB_IDR\<close> and the two counter bytes.
\<close>

record sample =
  idr :: u8
  cntrh :: u8
  cntrl :: u8

definition observe :: "sample \<Rightarrow> hw \<Rightarrow> hw" where
  "observe e s = s\<lparr>PB_IDR := idr e, TIM1_CNTRH := cntrh e, TIM1_CNTRL := cntrl e\<rparr>"

text \<open>
  The loop has no exit. Its executions are followed along a finite list of samples, one
  per iteration: \<open>run_loop es s\<close> is the register file after \<open>length es\<close> iterations.
\<close>

fun run_loop :: "sample list \<Rightarrow> hw \<Rightarrow> hw" where
  "run_loop [] s = s"
| "run_loop (e # es) s = run_loop es (loop_body (observe e s))"

text \<open>\<^verbatim>\<open>main\<close>: startup, then the loop.\<close>

definition main :: "sample list \<Rightarrow> hw \<Rightarrow> hw" where
  "main es s = run_loop es (startup s)"

section \<open>Quantities the properties are stated with\<close>

text \<open>
  The source's notes on the clocks (lines 30 and 101--109): the base clock is 16 MHz, and
  the timer counts at the base clock divided by the prescaler register plus one
  (``setting PSCR=7 really means divide by 7+1=8'').
\<close>

definition F0 :: nat where
  "F0 = 16000000"

definition prescaler :: "hw \<Rightarrow> u16" where
  "prescaler s = push_bit 8 (ucast (TIM1_PSCRH s)) OR ucast (TIM1_PSCRL s)"

definition timer_rate :: "hw \<Rightarrow> nat" where
  "timer_rate s = F0 div (unat (prescaler s) + 1)"

text \<open>A pin's bit in the data direction register and in the configuration register.\<close>

definition direction_bit :: "u16 \<Rightarrow> hw \<Rightarrow> bool" where
  "direction_bit pin s = ((ucast (PB_DDR s) :: u16) AND pin \<noteq> 0)"

definition config_bit :: "u16 \<Rightarrow> hw \<Rightarrow> bool" where
  "config_bit pin s = ((ucast (PB_CR1 s) :: u16) AND pin \<noteq> 0)"

text \<open>
  A simulated sweep of the counter: the decision of lines 136--140 taken at every counter
  value below \<open>n\<close> for the period \<open>ticks\<close>, and the number of values at which the pin
  ends high.
\<close>

definition high_count :: "nat \<Rightarrow> u16 \<Rightarrow> hw \<Rightarrow> nat" where
  "high_count n ticks s =
     length (filter (\<lambda>c. output_high (duty_cycle ticks (of_nat c) s)) [0..<n])"

text \<open>A register file with every byte zero, to evaluate the program at.\<close>

definition zero_regs :: hw where
  "zero_regs =
     \<lparr>CLK_CKDIVR = 0, TIM1_CNTRH = 0, TIM1_CNTRL = 0, TIM1_PSCRH = 0, TIM1_PSCRL = 0,
      TIM1_CR1 = 0, PB_ODR = 0, PB_IDR = 0, PB_DDR = 0, PB_CR1 = 0\<rparr>"

section \<open>Basic facts\<close>

subsection \<open>Pin writes and pin tests\<close>

lemma PB_ODR_drive_high: "PB_ODR (drive_high s) = PB_ODR s OR 1"
  by (rule bit_word_eqI) (auto simp: drive_high_def TICK_PIN_def bit_simps)

lemma PB_ODR_drive_low: "PB_ODR (drive_low s) = PB_ODR s AND NOT 1"
  by (rule bit_word_eqI) (auto simp: drive_low_def TICK_PIN_def bit_simps)

lemma and_pin_iff_bit: "((ucast (b :: u8) :: u16) AND push_bit n 1 \<noteq> 0) \<longleftrightarrow> bit b n"
proof -
  have "((ucast b :: u16) AND push_bit n 1 \<noteq> 0) \<longleftrightarrow> bit (ucast b :: u16) n"
    by (simp only: bit_iff_and_push_bit_not_eq_0)
  also have "\<dots> \<longleftrightarrow> bit b n"
    by (auto simp: bit_ucast_iff dest: bit_imp_le_length)
  finally show ?thesis .
qed

lemma output_high_iff: "output_high s \<longleftrightarrow> bit (PB_ODR s) 0"
  using and_pin_iff_bit [of "PB_ODR s" 0] by (simp add: output_high_def TICK_PIN_def)

lemma select_ticks_iff: "select_ticks s = (if bit (PB_IDR s) 1 then 33333 else 40000)"
  using and_pin_iff_bit [of "PB_IDR s" 1]
  by (simp add: select_ticks_def FREQ_SELECT_PIN_def TICKS_50HZ_def TICKS_60HZ_def)

lemma output_high_drive_high: "output_high (drive_high s)"
  by (simp add: output_high_iff PB_ODR_drive_high bit_simps)

lemma output_high_drive_low: "\<not> output_high (drive_low s)"
  by (simp add: output_high_iff PB_ODR_drive_low bit_simps)

lemma drive_high_idem: "drive_high (drive_high s) = drive_high s"
proof -
  have "PB_ODR (drive_high s) OR 1 = PB_ODR (drive_high s)"
    by (simp add: PB_ODR_drive_high or.assoc)
  then show ?thesis using PB_ODR_drive_high [of "drive_high s"]
    by (simp add: drive_high_def)
qed

lemma drive_low_idem: "drive_low (drive_low s) = drive_low s"
proof -
  have "PB_ODR (drive_low s) AND NOT 1 = PB_ODR (drive_low s)"
    by (simp add: PB_ODR_drive_low and.assoc)
  then show ?thesis using PB_ODR_drive_low [of "drive_low s"]
    by (simp add: drive_low_def)
qed

lemma regs_drive_high:
  "TIM1_CNTRH (drive_high s) = TIM1_CNTRH s" "TIM1_CNTRL (drive_high s) = TIM1_CNTRL s"
  "PB_IDR (drive_high s) = PB_IDR s"
  by (simp_all add: drive_high_def)

lemma regs_drive_low:
  "TIM1_CNTRH (drive_low s) = TIM1_CNTRH s" "TIM1_CNTRL (drive_low s) = TIM1_CNTRL s"
  "PB_IDR (drive_low s) = PB_IDR s"
  by (simp_all add: drive_low_def)

subsection \<open>The duty-cycle decision\<close>

lemma output_high_duty_cycle: "output_high (duty_cycle ticks ck s) \<longleftrightarrow> ck > ticks div 2"
  by (simp add: duty_cycle_def output_high_drive_high output_high_drive_low)

lemma past_midpoint_iff: "(ck :: u16) > ticks div 2 \<longleftrightarrow> unat ck > unat ticks div 2"
  by (simp add: word_less_nat_alt unat_div)

lemma regs_duty_cycle:
  "TIM1_CNTRH (duty_cycle t c s) = TIM1_CNTRH s" "TIM1_CNTRL (duty_cycle t c s) = TIM1_CNTRL s"
  "PB_IDR (duty_cycle t c s) = PB_IDR s"
  by (simp_all add: duty_cycle_def regs_drive_high regs_drive_low)

lemma clock_duty_cycle: "clock (duty_cycle t c s) = clock s"
  by (simp add: clock_def regs_duty_cycle)

lemma select_ticks_duty_cycle: "select_ticks (duty_cycle t c s) = select_ticks s"
  by (simp add: select_ticks_def regs_duty_cycle)

lemma duty_cycle_idem: "duty_cycle t c (duty_cycle t c s) = duty_cycle t c s"
  by (simp add: duty_cycle_def drive_high_idem drive_low_idem)

subsection \<open>The timer and one iteration\<close>

lemma clock_word_cat: "clock s = word_cat (TIM1_CNTRH s) (TIM1_CNTRL s)"
  by (simp add: clock_def word_cat_eq_push_bit_or)

lemma clock_reset_clock: "clock (reset_clock s) = 0xFFFF"
  by (simp add: clock_def reset_clock_def)

lemma PB_ODR_reset_clock: "PB_ODR (reset_clock s) = PB_ODR s"
  by (simp add: reset_clock_def)

lemma loop_body_eq:
  "loop_body s =
     (if clock s > select_ticks s then duty_cycle (select_ticks s) 0 (reset_clock s)
      else duty_cycle (select_ticks s) (clock s) s)"
  by (simp add: loop_body_def reset_on_overshoot_def Let_def)

lemma loop_body_below:
  assumes "clock s \<le> select_ticks s"
  shows "loop_body s = duty_cycle (select_ticks s) (clock s) s"
  using assms by (simp add: loop_body_eq not_less [symmetric])

lemma output_high_loop_body:
  "output_high (loop_body s) \<longleftrightarrow>
     (if clock s > select_ticks s then 0 else clock s) > select_ticks s div 2"
  by (simp add: loop_body_eq output_high_duty_cycle)

lemma select_ticks_observe:
  "select_ticks (observe e s) = (if bit (idr e) 1 then 33333 else 40000)"
  by (simp add: select_ticks_iff observe_def)

lemma clock_observe: "clock (observe e s) = word_cat (cntrh e) (cntrl e)"
  by (simp add: clock_word_cat observe_def)

lemma run_loop_snoc: "run_loop (es @ [e]) s = loop_body (observe e (run_loop es s))"
  by (induction es arbitrary: s) simp_all

subsection \<open>Iterations that do not reset\<close>

lemma loop_body_idem_below:
  assumes "clock s \<le> select_ticks s"
  shows "loop_body (loop_body s) = loop_body s"
proof -
  let ?d = "duty_cycle (select_ticks s) (clock s) s"
  have "clock ?d \<le> select_ticks ?d"
    using assms by (simp add: clock_duty_cycle select_ticks_duty_cycle)
  then have "loop_body ?d = duty_cycle (select_ticks ?d) (clock ?d) ?d"
    by (rule loop_body_below)
  then show ?thesis
    by (simp add: loop_body_below [OF assms] clock_duty_cycle select_ticks_duty_cycle
        duty_cycle_idem)
qed

lemma loop_body_funpow_below:
  assumes "clock s \<le> select_ticks s"
  shows "(loop_body ^^ Suc n) s = loop_body s"
  by (induction n) (simp_all add: loop_body_idem_below [OF assms])

lemma observe_same:
  assumes "PB_IDR s = idr e" and "TIM1_CNTRH s = cntrh e" and "TIM1_CNTRL s = cntrl e"
  shows "observe e s = s"
  using assms by (simp add: observe_def)

lemma run_loop_same_sample:
  assumes "clock s \<le> select_ticks s"
    and "PB_IDR s = idr e" and "TIM1_CNTRH s = cntrh e" and "TIM1_CNTRL s = cntrl e"
  shows "run_loop (replicate (Suc n) e) s = loop_body s"
proof -
  have seen: "observe e (loop_body s) = loop_body s"
    by (rule observe_same) (simp_all add: loop_body_below [OF assms(1)] regs_duty_cycle assms)
  have "run_loop (replicate n e) (loop_body s) = loop_body s"
    by (induction n) (simp_all add: seen loop_body_idem_below [OF assms(1)])
  then show ?thesis
    by (simp add: observe_same [OF assms(2-4)])
qed


subsection \<open>What the writes to the output register leave alone\<close>

lemma PB_ODR_duty_cycle_frame:
  "PB_ODR (duty_cycle t c s) AND NOT 1 = PB_ODR s AND NOT 1"
  by (rule bit_word_eqI)
    (auto simp: duty_cycle_def PB_ODR_drive_high PB_ODR_drive_low bit_simps)

lemma PB_ODR_loop_body_frame: "PB_ODR (loop_body s) AND NOT 1 = PB_ODR s AND NOT 1"
  by (cases "clock s > select_ticks s")
    (simp_all only: loop_body_eq if_True if_False PB_ODR_duty_cycle_frame PB_ODR_reset_clock)

lemma PB_ODR_observe: "PB_ODR (observe e s) = PB_ODR s"
  by (simp add: observe_def)

lemma PB_ODR_run_loop_frame: "PB_ODR (run_loop es s) AND NOT 1 = PB_ODR s AND NOT 1"
proof (induction es arbitrary: s)
  case Nil
  show ?case by (simp only: run_loop.simps)
next
  case (Cons e es)
  show ?case
    by (simp only: run_loop.simps Cons.IH PB_ODR_loop_body_frame PB_ODR_observe)
qed

lemma PB_ODR_startup_frame: "PB_ODR (startup s) AND NOT 1 = PB_ODR s AND NOT 1"
  by (simp add: startup_def PB_ODR_drive_low configure_def)

lemma ucast_TICK_PIN: "(ucast TICK_PIN :: u8) = 1"
  by (simp add: TICK_PIN_def)

subsection \<open>Startup\<close>

lemma PB_DDR_startup: "PB_DDR (startup s) = 0x03"
  by (simp add: startup_def drive_low_def configure_def TICK_PIN_def FREQ_SELECT_PIN_def)

lemma PB_CR1_startup: "PB_CR1 (startup s) = 0x03"
  by (simp add: startup_def drive_low_def configure_def TICK_PIN_def FREQ_SELECT_PIN_def)

lemma prescaler_startup: "prescaler (startup s) = 7"
  by (simp add: prescaler_def startup_def drive_low_def configure_def)

subsection \<open>Counting over a sweep\<close>

lemma length_filter_above: "length (filter (\<lambda>c. m < c) [0..<n]) = n - Suc m"
  by (induction n) (auto simp: Suc_diff_le)

lemma high_count_eq:
  assumes "n \<le> 2 ^ 16"
  shows "high_count n ticks s = n - Suc (unat ticks div 2)"
proof -
  have "filter (\<lambda>c. output_high (duty_cycle ticks (of_nat c) s)) [0..<n]
      = filter (\<lambda>c. unat ticks div 2 < c) [0..<n]"
  proof (rule filter_cong [OF refl])
    fix c assume "c \<in> set [0..<n]"
    with assms have "c < 2 ^ 16" by simp
    then have "unat (of_nat c :: u16) = c" by (simp add: unat_of_nat)
    then show "output_high (duty_cycle ticks (of_nat c) s) \<longleftrightarrow> unat ticks div 2 < c"
      by (simp add: output_high_duty_cycle past_midpoint_iff)
  qed
  then show ?thesis by (simp add: high_count_def length_filter_above)
qed

section \<open>Properties of the program\<close>

subsection \<open>The duty-cycle decision\<close>

text \<open>
  C1. In an iteration that selected the period \<open>P\<close> (40,000 or 33,333) and whose counter
  value after the reset step is \<open>c\<close> with \<open>0 \<le> c < P\<close>, the tick pin is driven high if
  \<open>c > P div 2\<close> (division on the natural numbers) and low otherwise.
\<close>

theorem duty_cycle_decision:
  assumes "reset_on_overshoot (select_ticks s) (clock s) s = (s', c)"
    and "unat c < unat (select_ticks s)"
  shows "(unat (select_ticks s) = 40000 \<or> unat (select_ticks s) = 33333)
    \<and> loop_body s = (if unat c > unat (select_ticks s) div 2 then drive_high s' else drive_low s')
    \<and> (output_high (loop_body s) \<longleftrightarrow> unat c > unat (select_ticks s) div 2)"
proof -
  have "unat (select_ticks s) = 40000 \<or> unat (select_ticks s) = 33333"
    by (simp add: select_ticks_iff)
  moreover have body: "loop_body s = duty_cycle (select_ticks s) c s'"
    using assms(1) by (simp add: loop_body_def Let_def)
  moreover have "output_high (loop_body s) \<longleftrightarrow> unat c > unat (select_ticks s) div 2"
    by (simp only: body output_high_duty_cycle past_midpoint_iff)
  moreover have "duty_cycle (select_ticks s) c s'
      = (if unat c > unat (select_ticks s) div 2 then drive_high s' else drive_low s')"
    by (simp only: duty_cycle_def past_midpoint_iff)
  ultimately show ?thesis by simp
qed

text \<open>
  The select pin low and the counter at 30,000 (\<^verbatim>\<open>0x7530\<close>): no reset, 30,000 is below
  the period 40,000, and the pin goes high.
\<close>

theorem duty_cycle_decision_witness:
  "reset_on_overshoot (select_ticks (observe \<lparr>idr = 0, cntrh = 0x75, cntrl = 0x30\<rparr> zero_regs))
       (clock (observe \<lparr>idr = 0, cntrh = 0x75, cntrl = 0x30\<rparr> zero_regs))
       (observe \<lparr>idr = 0, cntrh = 0x75, cntrl = 0x30\<rparr> zero_regs)
     = (observe \<lparr>idr = 0, cntrh = 0x75, cntrl = 0x30\<rparr> zero_regs, 30000)
   \<and> unat (30000 :: u16)
       < unat (select_ticks (observe \<lparr>idr = 0, cntrh = 0x75, cntrl = 0x30\<rparr> zero_regs))
   \<and> output_high (loop_body (observe \<lparr>idr = 0, cntrh = 0x75, cntrl = 0x30\<rparr> zero_regs))"
proof -
  let ?s = "observe \<lparr>idr = 0, cntrh = 0x75, cntrl = 0x30\<rparr> zero_regs"
  have t: "select_ticks ?s = 40000"
    by (simp add: select_ticks_iff observe_def)
  have c: "clock ?s = 30000"
    by (simp add: clock_def observe_def)
  have h1: "reset_on_overshoot (select_ticks ?s) (clock ?s) ?s = (?s, 30000)"
    by (simp add: t c reset_on_overshoot_def)
  have h2: "unat (30000 :: u16) < unat (select_ticks ?s)"
    by (simp add: t)
  from duty_cycle_decision [OF h1 h2]
  have "output_high (loop_body ?s) \<longleftrightarrow> unat (30000 :: u16) > unat (select_ticks ?s) div 2"
    by blast
  then have "output_high (loop_body ?s)"
    by (simp add: t)
  with h1 h2 show ?thesis
    by blast
qed

subsection \<open>Reset past the period\<close>

text \<open>
  C2. In an iteration whose sampled counter value exceeds the selected period, the reset
  step writes \<^verbatim>\<open>0xff\<close> to both counter bytes (the counter reads \<^verbatim>\<open>0xFFFF\<close> afterwards),
  hands the value 0 to the duty-cycle decision, and the tick pin is driven low.
\<close>

theorem overshoot_resets_timer:
  assumes "clock s > select_ticks s"
  shows "reset_on_overshoot (select_ticks s) (clock s) s = (reset_clock s, 0)
    \<and> loop_body s = duty_cycle (select_ticks s) 0 (reset_clock s)
    \<and> TIM1_CNTRH (loop_body s) = 0xff \<and> TIM1_CNTRL (loop_body s) = 0xff
    \<and> clock (loop_body s) = 0xFFFF
    \<and> \<not> output_high (loop_body s)"
proof -
  have r: "reset_on_overshoot (select_ticks s) (clock s) s = (reset_clock s, 0)"
    using assms by (simp add: reset_on_overshoot_def)
  have body: "loop_body s = duty_cycle (select_ticks s) 0 (reset_clock s)"
    using assms by (simp add: loop_body_eq)
  have "TIM1_CNTRH (loop_body s) = 0xff" "TIM1_CNTRL (loop_body s) = 0xff"
    by (simp_all add: body regs_duty_cycle reset_clock_def)
  moreover have "clock (loop_body s) = 0xFFFF"
    by (simp only: body clock_duty_cycle clock_reset_clock)
  moreover have "\<not> output_high (loop_body s)"
    by (simp add: body output_high_duty_cycle)
  ultimately show ?thesis using r body by blast
qed

text \<open>The select pin low and the counter at 40,001 (\<^verbatim>\<open>0x9C41\<close>), one past the period.\<close>

theorem overshoot_resets_timer_witness:
  "clock (observe \<lparr>idr = 0, cntrh = 0x9C, cntrl = 0x41\<rparr> zero_regs)
     > select_ticks (observe \<lparr>idr = 0, cntrh = 0x9C, cntrl = 0x41\<rparr> zero_regs)
   \<and> clock (loop_body (observe \<lparr>idr = 0, cntrh = 0x9C, cntrl = 0x41\<rparr> zero_regs)) = 0xFFFF
   \<and> \<not> output_high (loop_body (observe \<lparr>idr = 0, cntrh = 0x9C, cntrl = 0x41\<rparr> zero_regs))"
proof -
  let ?s = "observe \<lparr>idr = 0, cntrh = 0x9C, cntrl = 0x41\<rparr> zero_regs"
  have t: "select_ticks ?s = 40000"
    by (simp add: select_ticks_iff observe_def)
  have c: "clock ?s = 40001"
    by (simp add: clock_def observe_def)
  have h: "clock ?s > select_ticks ?s"
    by (simp add: t c)
  from overshoot_resets_timer [OF h]
  have "clock (loop_body ?s) = 0xFFFF" and "\<not> output_high (loop_body ?s)"
    by blast+
  with h show ?thesis
    by blast
qed

subsection \<open>Selecting the period\<close>

text \<open>
  C3. The period an iteration uses is decided by the level of the frequency-select pin
  (bit 1 of the byte read from the input register) sampled in that iteration, whatever
  the earlier iterations saw: low gives the 50 Hz period of 40,000 ticks, high the
  60 Hz period of 33,333 ticks. The output of that iteration follows from its own sample
  alone.
\<close>

theorem period_from_current_sample:
  "select_ticks (observe e (run_loop es s)) = (if bit (idr e) 1 then TICKS_60HZ else TICKS_50HZ)
   \<and> unat TICKS_50HZ = 40000 \<and> unat TICKS_60HZ = 33333
   \<and> (output_high (run_loop (es @ [e]) s) \<longleftrightarrow>
        (let P = (if bit (idr e) 1 then TICKS_60HZ else TICKS_50HZ);
             c = word_cat (cntrh e) (cntrl e)
         in (if c > P then 0 else c) > P div 2))"
  by (simp add: run_loop_snoc output_high_loop_body select_ticks_observe clock_observe
      TICKS_50HZ_def TICKS_60HZ_def Let_def)

subsection \<open>High values in one sweep of the counter\<close>

text \<open>
  C4, as the code has it. Taking the decision of lines 136--140 at every counter value
  \<open>c\<close> with \<open>0 \<le> c < P\<close>, the pin is high at exactly 19,999 values for the 50 Hz period
  \<open>P = 40,000\<close> (the values 20,001 to 39,999) and at exactly 16,666 values for the 60 Hz
  period \<open>P = 33,333\<close> (the values 16,667 to 33,332): the comparison with the midpoint
  is strict, so the midpoint itself is low. The counts 20,000 and 16,667 are those of
  the sweep that includes the value \<open>c = P\<close>, at which the loop does not reset yet.
\<close>

theorem high_count_per_period:
  "high_count (unat TICKS_50HZ) TICKS_50HZ s = 19999
   \<and> high_count (unat TICKS_60HZ) TICKS_60HZ s = 16666
   \<and> high_count (unat TICKS_50HZ + 1) TICKS_50HZ s = 20000
   \<and> high_count (unat TICKS_60HZ + 1) TICKS_60HZ s = 16667"
  by (simp add: high_count_eq TICKS_50HZ_def TICKS_60HZ_def)

text \<open>
  C4 as it is written, 20,000 high values among the 40,000 below the 50 Hz period and
  16,667 among the 33,333 below the 60 Hz period, fails on the all-zero register file.
\<close>

theorem high_count_not_half:
  "high_count (unat TICKS_50HZ) TICKS_50HZ zero_regs \<noteq> 20000
   \<and> high_count (unat TICKS_60HZ) TICKS_60HZ zero_regs \<noteq> 16667"
  by (simp add: high_count_eq TICKS_50HZ_def TICKS_60HZ_def)

subsection \<open>Startup\<close>

text \<open>
  C5, what the code does. Startup stores the same byte \<^verbatim>\<open>0x03\<close> in the data direction
  register and in the configuration register: the tick pin and the frequency-select pin
  get the same direction bit (set) and the same configuration bit (set), so the two pins
  are not configured for different directions.
\<close>

theorem both_pins_configured_alike:
  "PB_DDR (startup s) = 0x03 \<and> PB_CR1 (startup s) = 0x03
   \<and> direction_bit TICK_PIN (startup s) \<and> direction_bit FREQ_SELECT_PIN (startup s)
   \<and> config_bit TICK_PIN (startup s) \<and> config_bit FREQ_SELECT_PIN (startup s)"
  by (simp add: PB_DDR_startup PB_CR1_startup direction_bit_def config_bit_def
      TICK_PIN_def FREQ_SELECT_PIN_def)

text \<open>
  C6. Startup stores 0 and 7 in the prescaler bytes, the division factor 8 minus one.
  With the base clock of 16,000,000 Hz the timer counts at exactly
  16,000,000 / 8 = 2,000,000 per second, and the two period constants are
  2,000,000 div 50 = 40,000 and 2,000,000 div 60 = 33,333.
\<close>

theorem timer_rate_and_periods:
  "TIM1_PSCRH (startup s) = 0 \<and> TIM1_PSCRL (startup s) = 7
   \<and> unat (prescaler (startup s)) = 8 - 1
   \<and> F0 = 16000000
   \<and> timer_rate (startup s) = 2000000 \<and> 8 * timer_rate (startup s) = F0
   \<and> unat TICKS_50HZ = timer_rate (startup s) div 50 \<and> unat TICKS_50HZ = 40000
   \<and> unat TICKS_60HZ = timer_rate (startup s) div 60 \<and> unat TICKS_60HZ = 33333"
proof -
  have "TIM1_PSCRH (startup s) = 0" "TIM1_PSCRL (startup s) = 7"
    by (simp_all add: startup_def drive_low_def configure_def)
  moreover have r: "timer_rate (startup s) = 2000000"
    by (simp add: timer_rate_def prescaler_startup F0_def)
  moreover have "unat TICKS_50HZ = 40000" "unat TICKS_60HZ = 33333"
    by (simp_all add: TICKS_50HZ_def TICKS_60HZ_def)
  ultimately show ?thesis
    by (simp add: prescaler_startup F0_def)
qed

text \<open>
  C7. Startup ends by clearing the tick pin's bit of the output register, after the pins
  are configured; the loop's first iteration starts from that register file, so the pin
  is low before any iteration has run.
\<close>

theorem tick_starts_low:
  "startup s = drive_low (configure s)
   \<and> \<not> output_high (startup s)
   \<and> main [] s = startup s
   \<and> main (e # es) s = run_loop es (loop_body (observe e (startup s)))"
  by (simp add: main_def startup_def output_high_drive_low)

subsection \<open>At or below the period\<close>

text \<open>
  C8. When the sampled counter value is at most the selected period, the reset step
  changes nothing: the register file is returned as it is, the counter bytes keep their
  values, the value handed to the duty-cycle decision is the sampled one, and the output
  is high exactly if that value is past the midpoint. Running the iteration again on
  the same sample, any number of times, gives the register file of the first run.
\<close>

theorem no_reset_at_or_below_period:
  assumes "clock s \<le> select_ticks s"
  shows "reset_on_overshoot (select_ticks s) (clock s) s = (s, clock s)
    \<and> TIM1_CNTRH (loop_body s) = TIM1_CNTRH s \<and> TIM1_CNTRL (loop_body s) = TIM1_CNTRL s
    \<and> loop_body s = duty_cycle (select_ticks s) (clock s) s
    \<and> (output_high (loop_body s) \<longleftrightarrow> unat (clock s) > unat (select_ticks s) div 2)
    \<and> (loop_body ^^ Suc n) s = loop_body s
    \<and> run_loop (replicate (Suc n)
          \<lparr>idr = PB_IDR s, cntrh = TIM1_CNTRH s, cntrl = TIM1_CNTRL s\<rparr>) s = loop_body s"
proof -
  have "reset_on_overshoot (select_ticks s) (clock s) s = (s, clock s)"
    using assms by (simp add: reset_on_overshoot_def not_less [symmetric])
  moreover note body = loop_body_below [OF assms]
  moreover have "TIM1_CNTRH (loop_body s) = TIM1_CNTRH s" "TIM1_CNTRL (loop_body s) = TIM1_CNTRL s"
    by (simp_all add: body regs_duty_cycle)
  moreover have "output_high (loop_body s) \<longleftrightarrow> unat (clock s) > unat (select_ticks s) div 2"
    by (simp only: body output_high_duty_cycle past_midpoint_iff)
  moreover note loop_body_funpow_below [OF assms, of n]
  moreover have "run_loop (replicate (Suc n)
      \<lparr>idr = PB_IDR s, cntrh = TIM1_CNTRH s, cntrl = TIM1_CNTRL s\<rparr>) s = loop_body s"
    by (rule run_loop_same_sample [OF assms]) simp_all
  ultimately show ?thesis by blast
qed

text \<open>
  The select pin high and the counter at 10,000 (\<^verbatim>\<open>0x2710\<close>), below the period 33,333
  and below its midpoint: the counter keeps its value, the pin is low, and five
  iterations leave what one leaves.
\<close>

theorem no_reset_at_or_below_period_witness:
  "clock (observe \<lparr>idr = 2, cntrh = 0x27, cntrl = 0x10\<rparr> zero_regs)
     \<le> select_ticks (observe \<lparr>idr = 2, cntrh = 0x27, cntrl = 0x10\<rparr> zero_regs)
   \<and> clock (loop_body (observe \<lparr>idr = 2, cntrh = 0x27, cntrl = 0x10\<rparr> zero_regs)) = 10000
   \<and> \<not> output_high (loop_body (observe \<lparr>idr = 2, cntrh = 0x27, cntrl = 0x10\<rparr> zero_regs))
   \<and> (loop_body ^^ Suc 4) (observe \<lparr>idr = 2, cntrh = 0x27, cntrl = 0x10\<rparr> zero_regs)
       = loop_body (observe \<lparr>idr = 2, cntrh = 0x27, cntrl = 0x10\<rparr> zero_regs)"
proof -
  let ?s = "observe \<lparr>idr = 2, cntrh = 0x27, cntrl = 0x10\<rparr> zero_regs"
  have t: "select_ticks ?s = 33333"
    by (simp add: select_ticks_iff observe_def)
  have c: "clock ?s = 10000"
    by (simp add: clock_def observe_def)
  have h: "clock ?s \<le> select_ticks ?s"
    by (simp add: t c)
  note r = no_reset_at_or_below_period [OF h, of 4]
  from r have b: "loop_body ?s = duty_cycle (select_ticks ?s) (clock ?s) ?s"
    by blast
  have "clock (loop_body ?s) = 10000"
    by (simp only: b clock_duty_cycle c)
  moreover from r
  have "output_high (loop_body ?s) \<longleftrightarrow> unat (clock ?s) > unat (select_ticks ?s) div 2"
    by blast
  then have "\<not> output_high (loop_body ?s)"
    by (simp add: t c)
  moreover from r have "(loop_body ^^ Suc 4) ?s = loop_body ?s"
    by blast
  ultimately show ?thesis using h by blast
qed

text \<open>
  C9. When the sampled counter value equals the selected period, the comparison of
  line 131 is strict and nothing is reset; the decision is taken at the period itself,
  which is past its own midpoint for both periods, so the tick pin is driven high.
\<close>

theorem at_period_no_reset_and_high:
  assumes "clock s = select_ticks s"
  shows "reset_on_overshoot (select_ticks s) (clock s) s = (s, select_ticks s)
    \<and> TIM1_CNTRH (loop_body s) = TIM1_CNTRH s \<and> TIM1_CNTRL (loop_body s) = TIM1_CNTRL s
    \<and> unat (select_ticks s) > unat (select_ticks s) div 2
    \<and> output_high (loop_body s)"
proof -
  have le: "clock s \<le> select_ticks s"
    using assms by simp
  have "reset_on_overshoot (select_ticks s) (clock s) s = (s, select_ticks s)"
    using assms by (simp add: reset_on_overshoot_def)
  moreover note body = loop_body_below [OF le]
  moreover have "TIM1_CNTRH (loop_body s) = TIM1_CNTRH s" "TIM1_CNTRL (loop_body s) = TIM1_CNTRL s"
    by (simp_all add: body regs_duty_cycle)
  moreover have mid: "unat (select_ticks s) > unat (select_ticks s) div 2"
    by (simp add: select_ticks_iff)
  moreover have "output_high (loop_body s)"
    using mid by (simp only: body output_high_duty_cycle past_midpoint_iff assms)
  ultimately show ?thesis by blast
qed

text \<open>The select pin low and the counter at 40,000 (\<^verbatim>\<open>0x9C40\<close>), the 50 Hz period.\<close>

theorem at_period_no_reset_and_high_witness:
  "clock (observe \<lparr>idr = 0, cntrh = 0x9C, cntrl = 0x40\<rparr> zero_regs)
     = select_ticks (observe \<lparr>idr = 0, cntrh = 0x9C, cntrl = 0x40\<rparr> zero_regs)
   \<and> clock (observe \<lparr>idr = 0, cntrh = 0x9C, cntrl = 0x40\<rparr> zero_regs) = 40000
   \<and> clock (loop_body (observe \<lparr>idr = 0, cntrh = 0x9C, cntrl = 0x40\<rparr> zero_regs)) = 40000
   \<and> output_high (loop_body (observe \<lparr>idr = 0, cntrh = 0x9C, cntrl = 0x40\<rparr> zero_regs))"
proof -
  let ?s = "observe \<lparr>idr = 0, cntrh = 0x9C, cntrl = 0x40\<rparr> zero_regs"
  have t: "select_ticks ?s = 40000"
    by (simp add: select_ticks_iff observe_def)
  have c: "clock ?s = 40000"
    by (simp add: clock_def observe_def)
  have h: "clock ?s = select_ticks ?s"
    by (simp add: t c)
  note r = at_period_no_reset_and_high [OF h]
  from r
  have "TIM1_CNTRH (loop_body ?s) = TIM1_CNTRH ?s" "TIM1_CNTRL (loop_body ?s) = TIM1_CNTRL ?s"
    by blast+
  then have "clock (loop_body ?s) = clock ?s"
    by (simp add: clock_def)
  moreover from r have "output_high (loop_body ?s)"
    by blast
  ultimately show ?thesis using h c by simp
qed

subsection \<open>The other bits of the output register\<close>

text \<open>
  C10. Each write to the output register (clearing the tick bit, setting it), each
  iteration of the loop, and the whole program from startup through any number of
  iterations leave every bit of the output register other than the tick pin's as it was.
\<close>

theorem writes_touch_only_tick_bit:
  "PB_ODR (drive_low s) AND NOT (ucast TICK_PIN) = PB_ODR s AND NOT (ucast TICK_PIN)
   \<and> PB_ODR (drive_high s) AND NOT (ucast TICK_PIN) = PB_ODR s AND NOT (ucast TICK_PIN)
   \<and> PB_ODR (loop_body s) AND NOT (ucast TICK_PIN) = PB_ODR s AND NOT (ucast TICK_PIN)
   \<and> PB_ODR (main es s) AND NOT (ucast TICK_PIN) = PB_ODR s AND NOT (ucast TICK_PIN)"
proof -
  have "PB_ODR (drive_low s) AND NOT 1 = PB_ODR s AND NOT 1"
    by (simp add: PB_ODR_drive_low and.assoc)
  moreover have "PB_ODR (drive_high s) AND NOT 1 = PB_ODR s AND NOT 1"
    by (rule bit_word_eqI) (auto simp: PB_ODR_drive_high bit_simps)
  moreover have "PB_ODR (main es s) AND NOT 1 = PB_ODR s AND NOT 1"
    by (simp only: main_def PB_ODR_run_loop_frame PB_ODR_startup_frame)
  ultimately show ?thesis
    by (simp only: ucast_TICK_PIN PB_ODR_loop_body_frame)
qed

end
